theory Spec2Isabelle
  imports Complex_Main
begin

section \<open>Strings as the program sees them\<close>

text \<open>
  A Python \<open>str\<close> is modelled as a list of 8-bit characters, each read as the Unicode
  code point of the same number (0 to 255).  The string methods the program calls are
  given with Python's meaning on that range: \<open>str.isspace\<close>, \<open>str.isdigit\<close>,
  \<open>str.lower\<close>, \<open>str.strip()\<close>, \<open>str.split()\<close>, \<open>str.startswith\<close>,
  \<open>str.endswith\<close>, the operator \<open>in\<close> and \<open>int(str)\<close>.
\<close>

definition code :: "char \<Rightarrow> nat" where
  "code c = of_char c"

text \<open>\<open>str.isspace\<close> on one character: TAB, LF, VT, FF, CR, FS, GS, RS, US, space,
  NEL (0x85) and the no-break space (0xA0).\<close>

definition isspace :: "char \<Rightarrow> bool" where
  "isspace c = (let n = code c in
     (9 \<le> n \<and> n \<le> 13) \<or> (28 \<le> n \<and> n \<le> 32) \<or> n = 133 \<or> n = 160)"

text \<open>\<open>str.lower\<close> on one character: A to Z and the capital letters of Latin-1
  (0xC0 to 0xDE without the multiplication sign 0xD7) move up by 32.\<close>

definition lower_char :: "char \<Rightarrow> char" where
  "lower_char c = (let n = code c in
     if (65 \<le> n \<and> n \<le> 90) \<or> (192 \<le> n \<and> n \<le> 222 \<and> n \<noteq> 215)
     then char_of (n + 32) else c)"

definition lower :: "string \<Rightarrow> string" where
  "lower s = map lower_char s"

definition strip :: "string \<Rightarrow> string" where
  "strip s = rev (dropWhile isspace (rev (dropWhile isspace s)))"

definition startswith :: "string \<Rightarrow> string \<Rightarrow> bool" where
  "startswith s p = (take (length p) s = p)"

definition endswith :: "string \<Rightarrow> string \<Rightarrow> bool" where
  "endswith s p = startswith (rev s) (rev p)"

text \<open>\<open>contains s p\<close> is Python's \<open>p in s\<close>.\<close>

fun contains :: "string \<Rightarrow> string \<Rightarrow> bool" where
  "contains [] p = (p = [])"
| "contains (c # cs) p = (startswith (c # cs) p \<or> contains cs p)"

text \<open>\<open>str.split()\<close> with no argument: the maximal runs of characters that are not
  whitespace, in order.  \<open>cur\<close> is the run being read.\<close>

fun split_from :: "string \<Rightarrow> string \<Rightarrow> string list" where
  "split_from cur [] = (if cur = [] then [] else [cur])"
| "split_from cur (c # cs) =
     (if isspace c then (if cur = [] then split_from [] cs else cur # split_from [] cs)
      else split_from (cur @ [c]) cs)"

definition py_split :: "string \<Rightarrow> string list" where
  "py_split s = split_from [] s"

text \<open>\<open>str.isdigit\<close>: true of a non-empty string of digit characters.  Below 256 these
  are 0 to 9 and the superscripts two, three and one (0xB2, 0xB3, 0xB9).\<close>

definition isdigit_char :: "char \<Rightarrow> bool" where
  "isdigit_char c = (let n = code c in (48 \<le> n \<and> n \<le> 57) \<or> n = 178 \<or> n = 179 \<or> n = 185)"

definition isdigit :: "string \<Rightarrow> bool" where
  "isdigit s = (s \<noteq> [] \<and> list_all isdigit_char s)"

datatype error = ValueError | KeyError | TypeError | OSError | OperationalError string

definition isdecimal_char :: "char \<Rightarrow> bool" where
  "isdecimal_char c = (48 \<le> code c \<and> code c \<le> 57)"

text \<open>\<open>int(s)\<close> for a string without sign, blanks or underscores: the value of a
  non-empty string of decimal digits; anything else raises \<open>ValueError\<close>.  The
  superscript digits are not decimal digits.\<close>

definition py_int :: "string \<Rightarrow> error + nat" where
  "py_int s =
     (if s \<noteq> [] \<and> list_all isdecimal_char s
      then Inr (foldl (\<lambda>a c. 10 * a + (code c - 48)) 0 s)
      else Inl ValueError)"

subsection \<open>Formatting numbers\<close>

definition digit_char :: "nat \<Rightarrow> char" where
  "digit_char d = char_of (48 + d)"

text \<open>The decimal digits of a natural number (\<open>str(n)\<close>, and \<open>f"{n}"\<close>).\<close>

fun digits :: "nat \<Rightarrow> string" where
  "digits n = (if n < 10 then [digit_char n] else digits (n div 10) @ [digit_char (n mod 10)])"

declare digits.simps [simp del]

text \<open>Rounding to the nearest integer, a tie going to the even one, as the format
  specifications \<open>.0f\<close> and \<open>.1f\<close> round.\<close>

definition round_half_even :: "real \<Rightarrow> int" where
  "round_half_even x =
     (let f = \<lfloor>x\<rfloor>; d = x - of_int f in
      if d < 1 / 2 then f else if 1 / 2 < d then f + 1 else if even f then f else f + 1)"

text \<open>\<open>f"{x:.pf}"\<close> for \<open>p\<close> equal to 0 or 1: sign, integer part, and for \<open>p = 1\<close> a point
  and one digit.\<close>

definition format_f :: "nat \<Rightarrow> real \<Rightarrow> string" where
  "format_f p x =
     (let n = nat (round_half_even (\<bar>x\<bar> * 10 ^ p)) in
      (if x < 0 then ''-'' else '''')
      @ digits (n div 10 ^ p)
      @ (if p = 0 then '''' else ''.'' @ digits (n mod 10 ^ p)))"

section \<open>Link classifier\<close>

definition classify_link :: "string \<Rightarrow> string" where
  "classify_link url =
     (let u = lower (strip url) in
      if startswith u ''@'' then ''unknown''
      else if contains u ''t.me/joinchat'' \<or> contains u ''/+/'' \<or> contains u ''t.me/+''
              \<or> contains u ''joinchat'' then ''group_invite''
      else if contains u ''t.me/'' \<and> (contains u ''bot'' \<or> endswith u ''bot'') then ''bot''
      else ''unknown'')"

section \<open>The store\<close>

text \<open>
  The two tables of \<open>links.db\<close>, each a list of rows in insertion order.  The column
  \<open>id\<close> of both tables is left out: no statement of the program reads or writes it.
  A floating-point number is modelled as the real number it stands for: rounding,
  overflow and the special values are outside the model.
\<close>

record link_row =
  url :: string
  kind :: string
  status :: string
  last_checked :: int
  tries :: int

record account_row =
  session_name :: string
  owner_telegram_id :: int
  ema_cooldown :: real

record database =
  links :: "link_row list"
  accounts :: "account_row list"

definition EMA_ALPHA :: real where
  "EMA_ALPHA = 0.3"

definition DEFAULT_COOLDOWN :: real where
  "DEFAULT_COOLDOWN = 120"

definition newline :: char where
  "newline = CHR 0x0A"

text \<open>\<open>INSERT OR IGNORE INTO accounts (session_name, owner_telegram_id, ema_cooldown)\<close>:
  the row is added unless a row with this \<open>session_name\<close> (a \<open>UNIQUE\<close> column) is there.\<close>

definition insert_or_ignore_account :: "database \<Rightarrow> string \<Rightarrow> int \<Rightarrow> real \<Rightarrow> database" where
  "insert_or_ignore_account db name owner ema =
     (case find (\<lambda>r. session_name r = name) (accounts db) of
        Some r \<Rightarrow> db
      | None \<Rightarrow> db\<lparr>accounts := accounts db @
          [\<lparr>session_name = name, owner_telegram_id = owner, ema_cooldown = ema\<rparr>]\<rparr>)"

text \<open>\<open>INSERT OR IGNORE INTO links (url, kind)\<close>; the other columns take their defaults.\<close>

definition insert_or_ignore_link :: "database \<Rightarrow> string \<Rightarrow> string \<Rightarrow> database" where
  "insert_or_ignore_link db u k =
     (case find (\<lambda>r. url r = u) (links db) of
        Some r \<Rightarrow> db
      | None \<Rightarrow> db\<lparr>links := links db @
          [\<lparr>url = u, kind = k, status = ''pending'', last_checked = 0, tries = 0\<rparr>]\<rparr>)"

definition add_account_meta :: "database \<Rightarrow> string \<Rightarrow> int \<Rightarrow> database" where
  "add_account_meta db name owner = insert_or_ignore_account db name owner DEFAULT_COOLDOWN"

text \<open>\<open>update_ema\<close> returns the store and the value it returns in the program.\<close>

definition update_ema :: "database \<Rightarrow> string \<Rightarrow> real \<Rightarrow> database \<times> real" where
  "update_ema db name observed_seconds =
     (case find (\<lambda>r. session_name r = name) (accounts db) of
        Some row \<Rightarrow>
          (let prev = ema_cooldown row;
               ema = EMA_ALPHA * observed_seconds + (1 - EMA_ALPHA) * prev
           in (db\<lparr>accounts := map (\<lambda>r. if session_name r = name then r\<lparr>ema_cooldown := ema\<rparr> else r)
                                  (accounts db)\<rparr>, ema))
      | None \<Rightarrow>
          (let ema = DEFAULT_COOLDOWN
           in (insert_or_ignore_account db name 0 ema, ema)))"

section \<open>Handlers on the store\<close>

text \<open>What a handler sends back with \<open>msg.reply\<close>.\<close>

datatype reply = Reply string

definition report_usage :: string where
  "report_usage = ''Usage: /report <session_name> <ok|flood <seconds>|fail>''"

definition report_invalid :: string where
  "report_invalid = ''Invalid report format. Examples:'' @ [newline] @ ''/report acc1 ok''
     @ [newline] @ ''/report acc1 fail'' @ [newline] @ ''/report acc1 flood 120''"

definition new_ema_text :: "string \<Rightarrow> real \<Rightarrow> string" where
  "new_ema_text name new_ema =
     ''New EMA cooldown for '' @ name @ '': '' @ format_f 1 new_ema @ ''s''"

text \<open>\<open>cmd_report\<close>: \<open>Inl\<close> is the exception the handler ends with.\<close>

definition cmd_report :: "database \<Rightarrow> string \<Rightarrow> error + (database \<times> reply)" where
  "cmd_report db text =
     (let parts = py_split text in
      if length parts < 3 then Inr (db, Reply report_usage)
      else
        let name = strip (parts ! 1); res = strip (parts ! 2) in
        if res = ''ok'' then
          (case update_ema db name (DEFAULT_COOLDOWN * 0.9) of (db', new_ema) \<Rightarrow>
             Inr (db', Reply (''Recorded success. '' @ new_ema_text name new_ema)))
        else if res = ''fail'' then
          (case update_ema db name (DEFAULT_COOLDOWN * 1.2) of (db', new_ema) \<Rightarrow>
             Inr (db', Reply (''Recorded failure. '' @ new_ema_text name new_ema)))
        else if res = ''flood'' \<and> 4 \<le> length parts \<and> isdigit (parts ! 3) then
          (case py_int (parts ! 3) of
             Inl e \<Rightarrow> Inl e
           | Inr sec \<Rightarrow>
               (case update_ema db name (real sec) of (db', new_ema) \<Rightarrow>
                  Inr (db', Reply (''Recorded FloodWait '' @ digits sec @ ''s. ''
                                   @ new_ema_text name new_ema))))
        else Inr (db, Reply report_invalid))"

text \<open>The rows \<open>cmd_export_assist\<close> selects, and the file it writes.\<close>

definition pending_group_urls :: "database \<Rightarrow> string list" where
  "pending_group_urls db =
     map url (filter (\<lambda>r. status r = ''pending'' \<and> (kind r = ''group_invite'' \<or> kind r = ''unknown''))
                     (links db))"

definition assist_header :: "string \<Rightarrow> real \<Rightarrow> string" where
  "assist_header name ema =
     ''Recommended delay between joins for '' @ name @ '': '' @ format_f 0 ema @ '' seconds''"

definition assist_file :: "string \<Rightarrow> real \<Rightarrow> string list \<Rightarrow> string" where
  "assist_file name ema urls =
     assist_header name ema @ [newline, newline] @ concat (map (\<lambda>u. u @ [newline]) urls)"

text \<open>
  \<open>cmd_export_assist\<close> gives the file it wrote, if it wrote one (path and content), and
  how it ended: with a reply, or with an exception.  \<open>open_raises\<close> is what \<open>open\<close> of the
  file raises, if it raises (it does for a session name with a slash whose directory
  does not exist).  After the file is written the handler builds the document with
  \<open>types.InputFile(out_file)\<close>; in aiogram 3, whose modules the program imports, that is
  an abstract class and calling it raises \<open>TypeError\<close>, so \<open>reply_document\<close> is never
  reached.
\<close>

record export_result =
  written :: "(string \<times> string) option"
  ended :: "error + reply"

definition cmd_export_assist :: "database \<Rightarrow> string \<Rightarrow> error option \<Rightarrow> export_result" where
  "cmd_export_assist db text open_raises =
     (let parts = py_split text in
      if length parts < 2
      then \<lparr>written = None, ended = Inr (Reply ''Usage: /export_assist <session_name>'')\<rparr>
      else
        let name = strip (parts ! 1); urls = pending_group_urls db in
        if urls = [] then \<lparr>written = None, ended = Inr (Reply ''No pending group links.'')\<rparr>
        else
          let ema = (case find (\<lambda>r. session_name r = name) (accounts db) of
                       Some row \<Rightarrow> ema_cooldown row | None \<Rightarrow> DEFAULT_COOLDOWN)
          in case open_raises of
               Some e \<Rightarrow> \<lparr>written = None, ended = Inl e\<rparr>
             | None \<Rightarrow>
                 \<lparr>written = Some (''assist_'' @ name @ ''.txt'', assist_file name ema urls),
                  ended = Inl TypeError\<rparr>)"

text \<open>\<open>classify_msg\<close>, the handler of every message no other handler takes.  The
  argument is \<open>msg.text\<close>, \<open>None\<close> for a message without text.\<close>

definition classify_msg :: "database \<Rightarrow> string option \<Rightarrow> database \<times> reply option" where
  "classify_msg db msg_text =
     (let text = (case msg_text of None \<Rightarrow> '''' | Some t \<Rightarrow> t) in
      if startswith text ''http'' \<or> startswith text ''@'' then
        (let k = classify_link text in
         (insert_or_ignore_link db (strip text) k,
          Some (Reply (''Saved link as kind='' @ k
                       @ ''. Use /export_assist <session_name> to get assist file.''))))
      else (db, None))"

section \<open>Reading the store, and sequences of controller calls\<close>

text \<open>The estimate stored for a session name, as
  \<open>SELECT ema_cooldown FROM accounts WHERE session_name=?\<close> with \<open>fetchone\<close> reads it.\<close>

definition stored_estimate :: "database \<Rightarrow> string \<Rightarrow> real option" where
  "stored_estimate db name =
     map_option ema_cooldown (find (\<lambda>r. session_name r = name) (accounts db))"

definition empty_db :: database where
  "empty_db = \<lparr>links = [], accounts = []\<rparr>"

text \<open>A call of the cooldown controller: \<open>add_account_meta\<close> (register) or
  \<open>update_ema\<close> (update); \<open>states_after\<close> lists the store after each call of a sequence.\<close>

datatype call = Register string int | Update string real

fun apply_call :: "database \<Rightarrow> call \<Rightarrow> database" where
  "apply_call db (Register name owner) = add_account_meta db name owner"
| "apply_call db (Update name observed_seconds) = fst (update_ema db name observed_seconds)"

fun states_after :: "database \<Rightarrow> call list \<Rightarrow> database list" where
  "states_after db [] = []"
| "states_after db (c # cs) = apply_call db c # states_after (apply_call db c) cs"

fun observed_nonneg :: "call \<Rightarrow> bool" where
  "observed_nonneg (Register name owner) = True"
| "observed_nonneg (Update name observed_seconds) = (0 \<le> observed_seconds)"

definition all_positive :: "database \<Rightarrow> bool" where
  "all_positive db = list_all (\<lambda>r. 0 < ema_cooldown r) (accounts db)"

section \<open>What the claims speak of\<close>

text \<open>Letters in either case, said without \<open>lower\<close>: \<open>is_upper_char\<close> holds of A to Z and
  of the capital letters of Latin-1, and two characters are the same letter when they are
  equal or one is the capital of the other (32 below it).\<close>

definition is_upper_char :: "char \<Rightarrow> bool" where
  "is_upper_char c =
     ((65 \<le> code c \<and> code c \<le> 90) \<or> (192 \<le> code c \<and> code c \<le> 222 \<and> code c \<noteq> 215))"

definition same_letter :: "char \<Rightarrow> char \<Rightarrow> bool" where
  "same_letter c d =
     (c = d \<or> (is_upper_char c \<and> code d = code c + 32) \<or> (is_upper_char d \<and> code c = code d + 32))"

text \<open>The markers of the three rules, on the trimmed and lower-cased identifier.\<close>

definition has_sigil :: "string \<Rightarrow> bool" where
  "has_sigil u = startswith u ''@''"

definition has_invite_marker :: "string \<Rightarrow> bool" where
  "has_invite_marker u =
     (contains u ''t.me/joinchat'' \<or> contains u ''/+/'' \<or> contains u ''t.me/+''
      \<or> contains u ''joinchat'')"

definition has_bot_marker :: "string \<Rightarrow> bool" where
  "has_bot_marker u = (contains u ''t.me/'' \<and> contains u ''bot'')"

text \<open>The lines of a text file: the runs between line feeds, a last run without a line
  feed counting when it is not empty.\<close>

fun lines_from :: "string \<Rightarrow> string \<Rightarrow> string list" where
  "lines_from cur [] = (if cur = [] then [] else [cur])"
| "lines_from cur (c # cs) =
     (if c = newline then cur # lines_from [] cs else lines_from (cur @ [c]) cs)"

definition file_lines :: "string \<Rightarrow> string list" where
  "file_lines s = lines_from [] s"

text \<open>The entries an export is about, in the words of the claim: the rows of \<open>links\<close>
  that are pending and whose category is \<open>group_invite\<close> or \<open>unknown\<close> (unclassified), in
  table order.  And the lines of the file an export wrote.\<close>

definition matching_entries :: "database \<Rightarrow> link_row list" where
  "matching_entries db =
     [r \<leftarrow> links db. status r = ''pending'' \<and> kind r \<in> {''group_invite'', ''unknown''}]"

definition written_lines :: "export_result \<Rightarrow> string list option" where
  "written_lines r = map_option (\<lambda>f. file_lines (snd f)) (written r)"

text \<open>The rows of \<open>links\<close> with a given \<open>url\<close>, and the store after \<open>classify_msg\<close> has
  handled a text message.\<close>

definition rows_with_url :: "database \<Rightarrow> string \<Rightarrow> link_row list" where
  "rows_with_url db u = filter (\<lambda>r. url r = u) (links db)"

definition ingest :: "database \<Rightarrow> string \<Rightarrow> database" where
  "ingest db t = fst (classify_msg db (Some t))"

text \<open>A run of characters without whitespace, as \<open>str.split()\<close> returns them.\<close>

definition token :: "string \<Rightarrow> bool" where
  "token t = (t \<noteq> [] \<and> list_all (\<lambda>c. \<not> isspace c) t)"

text \<open>The store after the one message \<open>https://t.me/+AbCd1234\<close> has been handled.\<close>

definition one_link_db :: database where
  "one_link_db = ingest empty_db ''https://t.me/+AbCd1234''"

text \<open>A store with four links, two of them pending and of a matching category.\<close>

definition four_links_db :: database where
  "four_links_db =
     \<lparr>links =
        [\<lparr>url = ''https://t.me/+AbCd1234'', kind = ''group_invite'', status = ''pending'',
          last_checked = 0, tries = 0\<rparr>,
         \<lparr>url = ''https://t.me/examplebot'', kind = ''bot'', status = ''pending'',
          last_checked = 0, tries = 0\<rparr>,
         \<lparr>url = ''@somebot'', kind = ''unknown'', status = ''pending'',
          last_checked = 0, tries = 0\<rparr>,
         \<lparr>url = ''https://t.me/joinchat/old'', kind = ''group_invite'', status = ''done'',
          last_checked = 0, tries = 0\<rparr>],
      accounts = [\<lparr>session_name = ''acc1'', owner_telegram_id = 42, ema_cooldown = 116.4\<rparr>]\<rparr>"

section \<open>Onboarding\<close>

text \<open>
  The handlers of the add-account conversation.  A handler takes the state of the
  process, the Telegram user id \<open>msg.from_user.id\<close> and \<open>msg.text\<close>, and for each call of
  the Telethon client the exception that call raises, if any (\<open>None\<close>: the call
  returns).  aiogram keeps the conversation state per chat and user; the model has one
  chat per user, the private chat with the bot.  Every message handled here is a text
  message.  Creating a \<open>TelegramClient\<close>, \<open>disconnect\<close>, sending a reply and writing a
  file are taken to return normally; a \<open>connect\<close> that raises leaves the client
  unconnected.
\<close>

datatype AddAccount =
  waiting_api_id | waiting_api_hash | waiting_phone | waiting_code | waiting_password
  | waiting_session_name

text \<open>What a Telethon call raises: \<open>errors.SessionPasswordNeededError\<close> or any other
  exception, each with its text.\<close>

datatype exn = SessionPasswordNeededError string | Exception string

fun exn_text :: "exn \<Rightarrow> string" where
  "exn_text (SessionPasswordNeededError m) = m"
| "exn_text (Exception m) = m"

text \<open>The data \<open>state.update_data\<close> collects.\<close>

record fsm_data =
  data_session_name :: "string option"
  data_api_id :: "nat option"
  data_api_hash :: "string option"

definition no_data :: fsm_data where
  "no_data = \<lparr>data_session_name = None, data_api_id = None, data_api_hash = None\<rparr>"

text \<open>An entry of \<open>pending_login\<close>.  A client object is named by a number.\<close>

record login =
  telethon_client :: nat
  phone :: string
  login_session_name :: string
  api_id :: nat
  api_hash :: string

datatype provider_call =
  Connect | SendCodeRequest | SignIn | SignInCodeOnly | SignInPassword | Disconnect

record call_entry =
  on_client :: nat
  made :: provider_call
  raised :: "exn option"

record world =
  store :: database
  pending_login :: "nat \<Rightarrow> login option"
  fsm_state :: "nat \<Rightarrow> AddAccount option"
  fsm_data :: "nat \<Rightarrow> fsm_data"
  next_client :: nat
  connected :: "nat set"
  session_files :: "string set"
  provider_log :: "call_entry list"
  sent :: "(nat \<times> string) list"

definition initial_world :: world where
  "initial_world =
     \<lparr>store = empty_db, pending_login = (\<lambda>u. None), fsm_state = (\<lambda>u. None),
      fsm_data = (\<lambda>u. no_data), next_client = 0, connected = {}, session_files = {},
      provider_log = [], sent = []\<rparr>"

definition reply_to :: "nat \<Rightarrow> string \<Rightarrow> world \<Rightarrow> world" where
  "reply_to uid t w = w\<lparr>sent := sent w @ [(uid, t)]\<rparr>"

definition set_state :: "nat \<Rightarrow> AddAccount \<Rightarrow> world \<Rightarrow> world" where
  "set_state uid s w = w\<lparr>fsm_state := (fsm_state w)(uid := Some s)\<rparr>"

text \<open>\<open>state.clear()\<close> drops the state and the data.\<close>

definition clear_state :: "nat \<Rightarrow> world \<Rightarrow> world" where
  "clear_state uid w =
     w\<lparr>fsm_state := (fsm_state w)(uid := None), fsm_data := (fsm_data w)(uid := no_data)\<rparr>"

definition pop_login :: "nat \<Rightarrow> world \<Rightarrow> world" where
  "pop_login uid w = w\<lparr>pending_login := (pending_login w)(uid := None)\<rparr>"

definition log_call :: "nat \<Rightarrow> provider_call \<Rightarrow> exn option \<Rightarrow> world \<Rightarrow> world" where
  "log_call c k r w =
     w\<lparr>provider_log := provider_log w @ [\<lparr>on_client = c, made = k, raised = r\<rparr>]\<rparr>"

text \<open>\<open>client.connect()\<close> that returns, and \<open>client.disconnect()\<close>.\<close>

definition connect_ok :: "nat \<Rightarrow> world \<Rightarrow> world" where
  "connect_ok c w = (log_call c Connect None w)\<lparr>connected := insert c (connected w)\<rparr>"

definition disconnect :: "nat \<Rightarrow> world \<Rightarrow> world" where
  "disconnect c w = (log_call c Disconnect None w)\<lparr>connected := connected w - {c}\<rparr>"

definition add_account_start :: "world \<Rightarrow> nat \<Rightarrow> world" where
  "add_account_start w uid =
     reply_to uid
       ''Choose a short session name (e.g. acc1). This will save sessions/<name>.session''
       (set_state uid waiting_session_name w)"

definition got_session_name :: "world \<Rightarrow> nat \<Rightarrow> string \<Rightarrow> world" where
  "got_session_name w uid text =
     (let name = strip text in
      if name = [] then reply_to uid ''Session name cannot be empty.'' w
      else reply_to uid
             ''Enter API_ID (numeric) for this user (you get this from https://my.telegram.org).''
             (set_state uid waiting_api_id
               (w\<lparr>fsm_data := (fsm_data w)(uid := (fsm_data w uid)\<lparr>data_session_name := Some name\<rparr>)\<rparr>)))"

definition got_api_id :: "world \<Rightarrow> nat \<Rightarrow> string \<Rightarrow> error + world" where
  "got_api_id w uid text =
     (let txt = strip text in
      if \<not> isdigit txt then Inr (reply_to uid ''API_ID must be numeric.'' w)
      else
        (case py_int txt of
           Inl e \<Rightarrow> Inl e
         | Inr n \<Rightarrow>
             Inr (reply_to uid ''Enter API_HASH (string).''
                   (set_state uid waiting_api_hash
                     (w\<lparr>fsm_data := (fsm_data w)(uid := (fsm_data w uid)\<lparr>data_api_id := Some n\<rparr>)\<rparr>)))))"

definition got_api_hash :: "world \<Rightarrow> nat \<Rightarrow> string \<Rightarrow> world" where
  "got_api_hash w uid text =
     (let txt = strip text in
      reply_to uid ''Enter phone number with country code (e.g. +91XXXXXXXXXX).''
        (set_state uid waiting_phone
          (w\<lparr>fsm_data := (fsm_data w)(uid := (fsm_data w uid)\<lparr>data_api_hash := Some txt\<rparr>)\<rparr>)))"

text \<open>The \<open>except\<close> branch of \<open>got_phone\<close>.\<close>

definition send_code_failed :: "nat \<Rightarrow> nat \<Rightarrow> exn \<Rightarrow> world \<Rightarrow> world" where
  "send_code_failed uid client e w =
     clear_state uid (disconnect client (reply_to uid (''Failed to send code: '' @ exn_text e) w))"

definition got_phone :: "world \<Rightarrow> nat \<Rightarrow> string \<Rightarrow> exn option \<Rightarrow> exn option \<Rightarrow> error + world" where
  "got_phone w uid text connect_raises send_code_raises =
     (let ph = strip text; data = fsm_data w uid in
      case (data_session_name data, data_api_id data, data_api_hash data) of
        (Some name, Some aid, Some ahash) \<Rightarrow>
          (let client = next_client w;
               w1 = reply_to uid ''Sending code... please wait.'' (w\<lparr>next_client := client + 1\<rparr>)
           in case connect_raises of
                Some e \<Rightarrow> Inr (send_code_failed uid client e (log_call client Connect (Some e) w1))
              | None \<Rightarrow>
                  (let w2 = connect_ok client w1 in
                   case send_code_raises of
                     Some e \<Rightarrow>
                       Inr (send_code_failed uid client e
                              (log_call client SendCodeRequest (Some e) w2))
                   | None \<Rightarrow>
                       (let w3 = log_call client SendCodeRequest None w2;
                            w4 = w3\<lparr>pending_login := (pending_login w3)(uid \<mapsto>
                                   \<lparr>telethon_client = client, phone = ph,
                                    login_session_name = name, api_id = aid, api_hash = ahash\<rparr>)\<rparr>
                        in Inr (reply_to uid
                             ''Code sent to your number. Please send me the code you received (just digits).''
                             (set_state uid waiting_code w4)))))
      | _ \<Rightarrow> Inl KeyError)"

text \<open>Saving the session and registering the account, the end of \<open>got_code\<close> (lines 267
  to 289) and of \<open>got_password\<close> (lines 310 to 323): the signed-in client is
  disconnected, a second client on the session file is connected and disconnected (or,
  when its \<open>connect\<close> raises, the file is written directly), the account row is
  inserted, the entry of \<open>pending_login\<close> is dropped and the state cleared.\<close>

definition save_session :: "nat \<Rightarrow> login \<Rightarrow> exn option \<Rightarrow> string \<Rightarrow> world \<Rightarrow> world" where
  "save_session uid obj file_connect_raises saved_text w =
     (let w1 = disconnect (telethon_client obj) w;
          file_client = next_client w1;
          w2 = w1\<lparr>next_client := file_client + 1\<rparr>;
          w3 = (case file_connect_raises of
                  None \<Rightarrow> disconnect file_client (connect_ok file_client w2)
                | Some e \<Rightarrow> log_call file_client Connect (Some e) w2);
          w4 = w3\<lparr>session_files := insert (login_session_name obj) (session_files w3)\<rparr>;
          w5 = w4\<lparr>store := add_account_meta (store w4) (login_session_name obj) (int uid)\<rparr>
      in reply_to uid saved_text (clear_state uid (pop_login uid w5)))"

definition sign_in_failed :: "nat \<Rightarrow> nat \<Rightarrow> string \<Rightarrow> world \<Rightarrow> world" where
  "sign_in_failed uid client t w =
     clear_state uid (pop_login uid (disconnect client (reply_to uid t w)))"

definition got_code ::
  "world \<Rightarrow> nat \<Rightarrow> string \<Rightarrow> exn option \<Rightarrow> exn option \<Rightarrow> exn option \<Rightarrow> world" where
  "got_code w uid text sign_in_raises fallback_raises file_connect_raises =
     (case pending_login w uid of
        None \<Rightarrow>
          clear_state uid
            (reply_to uid ''No pending login found. Please restart with /add_account.'' w)
      | Some obj \<Rightarrow>
          (let client = telethon_client obj;
               saved = ''Account saved as `'' @ login_session_name obj @ ''.session`.''
                       @ [newline] @ ''Use /sessions to list accounts.'';
               w1 = log_call client SignIn sign_in_raises (reply_to uid ''Trying to sign in...'' w)
           in case sign_in_raises of
                None \<Rightarrow> save_session uid obj file_connect_raises saved w1
              | Some (SessionPasswordNeededError m) \<Rightarrow>
                  reply_to uid
                    ''This account has two-step verification (password). Send the password now.''
                    (set_state uid waiting_password w1)
              | Some (Exception m) \<Rightarrow>
                  (let w2 = log_call client SignInCodeOnly fallback_raises w1 in
                   case fallback_raises of
                     None \<Rightarrow> save_session uid obj file_connect_raises saved w2
                   | Some e2 \<Rightarrow>
                       sign_in_failed uid client
                         (''Sign-in failed: '' @ m @ '' / '' @ exn_text e2) w2)))"

definition got_password ::
  "world \<Rightarrow> nat \<Rightarrow> string \<Rightarrow> exn option \<Rightarrow> exn option \<Rightarrow> world" where
  "got_password w uid text password_raises file_connect_raises =
     (case pending_login w uid of
        None \<Rightarrow> clear_state uid (reply_to uid ''No pending login.'' w)
      | Some obj \<Rightarrow>
          (let client = telethon_client obj;
               w1 = log_call client SignInPassword password_raises w
           in case password_raises of
                Some e \<Rightarrow>
                  sign_in_failed uid client (''Password sign-in failed: '' @ exn_text e) w1
              | None \<Rightarrow>
                  save_session uid obj file_connect_raises
                    (''Account saved as `'' @ login_session_name obj @ ''.session`.'') w1))"

text \<open>The messages \<open>/add_account\<close>, name, API id, API hash and phone number of one
  operator, with a provider that accepts the connection and sends the code.\<close>

definition enter_details ::
  "world \<Rightarrow> nat \<Rightarrow> string \<Rightarrow> string \<Rightarrow> string \<Rightarrow> string \<Rightarrow> error + world" where
  "enter_details w uid name_text id_text hash_text phone_text =
     (case got_api_id (got_session_name (add_account_start w uid) uid name_text) uid id_text of
        Inl e \<Rightarrow> Inl e
      | Inr w1 \<Rightarrow> got_phone (got_api_hash w1 uid hash_text) uid phone_text None None)"

section \<open>Start-up\<close>

text \<open>
  \<open>init_db\<close> runs two \<open>CREATE TABLE IF NOT EXISTS\<close> statements.  SQLite itself is not
  part of the program; what is modelled of it is the state it keeps here, the set of
  table names, and the one rule of its grammar that decides whether these statements
  are accepted: after \<open>DEFAULT\<close> a column definition takes a literal, a signed number or
  a parenthesised expression, so a statement that creates a table and holds the
  parameter marker \<open>?\<close> is rejected when it is prepared, with
  \<open>sqlite3.OperationalError\<close> (near \<open>?\<close>: syntax error), whatever is bound to the marker
  and whether or not the table exists.  The two texts are those of the source on one
  line and without its SQL comment; neither holds a question mark inside a literal.
\<close>

definition create_links_sql :: string where
  "create_links_sql = ''CREATE TABLE IF NOT EXISTS links ( id INTEGER PRIMARY KEY AUTOINCREMENT, url TEXT UNIQUE, kind TEXT DEFAULT 'unknown', status TEXT DEFAULT 'pending', last_checked INTEGER DEFAULT 0, tries INTEGER DEFAULT 0 )''"

definition create_accounts_sql :: string where
  "create_accounts_sql = ''CREATE TABLE IF NOT EXISTS accounts ( id INTEGER PRIMARY KEY AUTOINCREMENT, session_name TEXT UNIQUE, owner_telegram_id INTEGER, ema_cooldown REAL DEFAULT ? )''"

definition execute_create :: "string set \<Rightarrow> string \<Rightarrow> string \<Rightarrow> error + string set" where
  "execute_create tables name sql =
     (if contains sql ''?'' then Inl (OperationalError ''near ?: syntax error'')
      else Inr (insert name tables))"

definition init_db :: "string set \<Rightarrow> error + string set" where
  "init_db tables =
     (case execute_create tables ''links'' create_links_sql of
        Inl e \<Rightarrow> Inl e
      | Inr t1 \<Rightarrow> execute_create t1 ''accounts'' create_accounts_sql)"

section \<open>What the onboarding claims speak of\<close>


text \<open>The Telethon calls a handler made: the entries it added to the log.\<close>

definition calls_made :: "world \<Rightarrow> world \<Rightarrow> call_entry list" where
  "calls_made w w' = drop (length (provider_log w)) (provider_log w')"

text \<open>Every call but \<open>disconnect\<close> is an attempt on the provider.  A call failed when
  it raised, except that \<open>SessionPasswordNeededError\<close> from the first \<open>sign_in\<close> is the
  request for the second factor.\<close>

fun is_attempt :: "provider_call \<Rightarrow> bool" where
  "is_attempt Disconnect = False"
| "is_attempt k = True"

definition failed :: "call_entry \<Rightarrow> bool" where
  "failed e =
     (case raised e of
        None \<Rightarrow> False
      | Some (SessionPasswordNeededError m) \<Rightarrow> made e \<noteq> SignIn
      | Some (Exception m) \<Rightarrow> True)"

definition only_disconnects :: "call_entry list \<Rightarrow> bool" where
  "only_disconnects es = list_all (\<lambda>e. \<not> is_attempt (made e)) es"

text \<open>\<open>no_retry\<close>: after a failed call nothing but \<open>disconnect\<close> follows.
  \<open>one_fallback\<close>: the same, except that a failed first \<open>sign_in\<close> is followed at once by
  the \<open>sign_in\<close> with the code alone.\<close>

fun no_retry :: "call_entry list \<Rightarrow> bool" where
  "no_retry [] = True"
| "no_retry (e # es) = ((if failed e then only_disconnects es else True) \<and> no_retry es)"

fun one_fallback :: "call_entry list \<Rightarrow> bool" where
  "one_fallback [] = True"
| "one_fallback (e # es) =
     ((if failed e then
         (if made e = SignIn then (case es of [] \<Rightarrow> False | f # fs \<Rightarrow> made f = SignInCodeOnly)
          else only_disconnects es)
       else True)
      \<and> one_fallback es)"



definition awaiting_code :: "database \<Rightarrow> string \<Rightarrow> world" where
  "awaiting_code db name =
     (case enter_details (initial_world\<lparr>store := db\<rparr>) 7 name ''12345'' ''0123abcd'' ''+15550100'' of
        Inl e \<Rightarrow> initial_world | Inr w \<Rightarrow> w)"

definition restarted :: "error + world" where
  "restarted = enter_details (awaiting_code empty_db ''acc1'') 7 ''acc2'' ''12345'' ''0123abcd'' ''+15550100''"

section \<open>Facts about the string functions\<close>

lemma char_of_eq: "n < 256 \<Longrightarrow> (char_of (n::nat) = c) = (n = of_char c)"
  by (metis of_char_of char_of_char mod_less)

lemma code_lower_char:
  "code (lower_char c) =
     (if (65 \<le> code c \<and> code c \<le> 90) \<or> (192 \<le> code c \<and> code c \<le> 222 \<and> code c \<noteq> 215)
      then code c + 32 else code c)"
  by (auto simp: lower_char_def Let_def code_def)

lemma lower_char_idem: "lower_char (lower_char c) = lower_char c"
proof -
  have "code (lower_char (lower_char c)) = code (lower_char c)"
    by (simp only: code_lower_char [of "lower_char c"]) (auto simp: code_lower_char)
  then show ?thesis
    by (simp add: code_def)
qed

lemma isspace_lower_char: "isspace (lower_char c) = isspace c"
  by (simp add: isspace_def Let_def code_lower_char)

lemma lower_idem: "lower (lower s) = lower s"
  by (simp add: lower_def lower_char_idem)

lemma dropWhile_isspace_lower:
  "dropWhile isspace (map lower_char s) = map lower_char (dropWhile isspace s)"
  by (induction s) (simp_all add: isspace_lower_char)

lemma strip_lower: "strip (lower s) = lower (strip s)"
proof -
  have "rev (map lower_char (dropWhile isspace s)) = map lower_char (rev (dropWhile isspace s))"
    by (simp add: rev_map)
  then show ?thesis
    by (simp add: strip_def lower_def dropWhile_isspace_lower rev_map)
qed

section \<open>Claims about the classifier\<close>

lemma contains_iff: "contains u p = (\<exists>a b. u = a @ p @ b)"
proof (induction u)
  case Nil
  then show ?case by auto
next
  case (Cons c cs)
  have "startswith (c # cs) p = (\<exists>b. c # cs = p @ b)"
    unfolding startswith_def by (metis append_eq_conv_conj append_take_drop_id)
  moreover have "(\<exists>a b. c # cs = a @ p @ b)
      = ((\<exists>b. c # cs = p @ b) \<or> (\<exists>a b. cs = a @ p @ b))"
  proof
    assume "\<exists>a b. c # cs = a @ p @ b"
    then obtain a b where ab: "c # cs = a @ p @ b" by blast
    show "(\<exists>b. c # cs = p @ b) \<or> (\<exists>a b. cs = a @ p @ b)"
    proof (cases a)
      case Nil
      then show ?thesis using ab by auto
    next
      case (Cons x xs)
      then have "cs = xs @ p @ b" using ab by simp
      then show ?thesis by blast
    qed
  next
    assume "(\<exists>b. c # cs = p @ b) \<or> (\<exists>a b. cs = a @ p @ b)"
    then show "\<exists>a b. c # cs = a @ p @ b"
    proof
      assume "\<exists>b. c # cs = p @ b"
      then obtain b where "c # cs = [] @ p @ b" by auto
      then show ?thesis by blast
    next
      assume "\<exists>a b. cs = a @ p @ b"
      then obtain a b where "c # cs = (c # a) @ p @ b" by auto
      then show ?thesis by blast
    qed
  qed
  ultimately show ?case using Cons.IH by simp
qed

lemma endswith_contains: "endswith u p \<Longrightarrow> contains u p"
proof -
  assume "endswith u p"
  then have "take (length p) (rev u) = rev p"
    by (simp add: endswith_def startswith_def)
  then have "rev u = rev p @ drop (length p) (rev u)"
    by (metis append_take_drop_id)
  then have "u = rev (drop (length p) (rev u)) @ p @ []"
    by (metis append_Nil2 rev_append rev_rev_ident)
  then show ?thesis
    unfolding contains_iff by blast
qed

lemma same_letter_lower: "same_letter c d \<Longrightarrow> lower_char c = lower_char d"
proof -
  assume sl: "same_letter c d"
  have up: "\<And>x y. is_upper_char x \<Longrightarrow> code y = code x + 32 \<Longrightarrow> lower_char x = lower_char y"
  proof -
    fix x y
    assume u: "is_upper_char x" and y: "code y = code x + 32"
    have "code (lower_char x) = code (lower_char y)"
      using u y by (auto simp: code_lower_char is_upper_char_def)
    then show "lower_char x = lower_char y"
      by (simp add: code_def)
  qed
  from sl show ?thesis
    unfolding same_letter_def using up [of c d] up [of d c] by auto
qed

lemma same_letters_lower: "list_all2 same_letter s t \<Longrightarrow> lower s = lower t"
  unfolding lower_def
  by (induction rule: list_all2_induct) (simp_all add: same_letter_lower)

lemma classify_link_lower: "classify_link (lower s) = classify_link s"
  by (simp add: classify_link_def strip_lower lower_idem)

lemmas classify_eval = classify_link_def strip_def lower_def lower_char_def isspace_def code_def
  startswith_def endswith_def Let_def char_of_eq

text \<open>
  C5.  \<open>classify_link\<close> is a function of its argument alone and returns one of the three
  categories for every string.  It is case-insensitive: a string and its lower-cased
  form get the same category, and so do any two strings that differ only in the case of
  their letters.  Its rules apply to the trimmed, lower-cased identifier in order, the
  first that matches deciding: the sigil gives \<open>unknown\<close> whatever else the identifier
  holds; otherwise an invite marker gives \<open>group_invite\<close>, also when the bot rule would
  match; otherwise the host marker together with ``bot'' gives \<open>bot\<close>; otherwise
  \<open>unknown\<close>.  The three scenarios of the claim, and instances in upper case and
  instances where two rules match, evaluate accordingly.
\<close>

theorem classify_link_total_case_insensitive:
  "classify_link s \<in> {''unknown'', ''group_invite'', ''bot''}
   \<and> classify_link (lower s) = classify_link s
   \<and> (list_all2 same_letter s t \<longrightarrow> classify_link s = classify_link t)
   \<and> (has_sigil (lower (strip s)) \<longrightarrow> classify_link s = ''unknown'')
   \<and> (\<not> has_sigil (lower (strip s)) \<and> has_invite_marker (lower (strip s)) \<longrightarrow>
        classify_link s = ''group_invite'')
   \<and> (\<not> has_sigil (lower (strip s)) \<and> \<not> has_invite_marker (lower (strip s))
        \<and> has_bot_marker (lower (strip s)) \<longrightarrow> classify_link s = ''bot'')
   \<and> (\<not> has_sigil (lower (strip s)) \<and> \<not> has_invite_marker (lower (strip s))
        \<and> \<not> has_bot_marker (lower (strip s)) \<longrightarrow> classify_link s = ''unknown'')
   \<and> classify_link ''https://t.me/+AbCd1234'' = ''group_invite''
   \<and> classify_link ''@somebot'' = ''unknown''
   \<and> classify_link ''https://t.me/examplebot'' = ''bot''
   \<and> classify_link ''HTTPS://T.ME/JOINCHAT/XYZ'' = ''group_invite''
   \<and> classify_link ''HTTPS://T.ME/EXAMPLEBOT'' = ''bot''
   \<and> classify_link ''@t.me/examplebot'' = ''unknown''
   \<and> classify_link ''@joinchat'' = ''unknown''
   \<and> classify_link ''https://t.me/joinchat/examplebot'' = ''group_invite''
   \<and> classify_link ''https://t.me/example'' = ''unknown''
   \<and> classify_link ''  https://t.me/ExampleBot  '' = ''bot''"
proof -
  let ?u = "lower (strip s)"
  have total: "classify_link s \<in> {''unknown'', ''group_invite'', ''bot''}"
    by (simp add: classify_link_def Let_def)
  have ci: "classify_link (lower s) = classify_link s"
    by (rule classify_link_lower)
  have sl: "list_all2 same_letter s t \<longrightarrow> classify_link s = classify_link t"
  proof
    assume "list_all2 same_letter s t"
    then have "lower s = lower t" by (rule same_letters_lower)
    then show "classify_link s = classify_link t"
      using classify_link_lower [of s] classify_link_lower [of t] by simp
  qed
  have bot_rule: "(contains ?u ''t.me/'' \<and> (contains ?u ''bot'' \<or> endswith ?u ''bot''))
      = has_bot_marker ?u"
    using endswith_contains [of ?u "''bot''"] by (auto simp: has_bot_marker_def)
  have r1: "has_sigil ?u \<longrightarrow> classify_link s = ''unknown''"
    by (simp add: classify_link_def Let_def has_sigil_def)
  have r2: "\<not> has_sigil ?u \<and> has_invite_marker ?u \<longrightarrow> classify_link s = ''group_invite''"
    by (simp add: classify_link_def Let_def has_sigil_def has_invite_marker_def)
  have r3: "\<not> has_sigil ?u \<and> \<not> has_invite_marker ?u \<and> has_bot_marker ?u \<longrightarrow>
      classify_link s = ''bot''"
    using bot_rule by (simp add: classify_link_def Let_def has_sigil_def has_invite_marker_def)
  have r4: "\<not> has_sigil ?u \<and> \<not> has_invite_marker ?u \<and> \<not> has_bot_marker ?u \<longrightarrow>
      classify_link s = ''unknown''"
    using bot_rule by (simp add: classify_link_def Let_def has_sigil_def has_invite_marker_def)
  have e1: "classify_link ''https://t.me/+AbCd1234'' = ''group_invite''"
    by (simp add: classify_eval)
  have e2: "classify_link ''@somebot'' = ''unknown''"
    by (simp add: classify_eval)
  have e3: "classify_link ''https://t.me/examplebot'' = ''bot''"
    by (simp add: classify_eval)
  have e4: "classify_link ''HTTPS://T.ME/JOINCHAT/XYZ'' = ''group_invite''"
    by (simp add: classify_eval)
  have e5: "classify_link ''HTTPS://T.ME/EXAMPLEBOT'' = ''bot''"
    by (simp add: classify_eval)
  have e6: "classify_link ''@t.me/examplebot'' = ''unknown''"
    by (simp add: classify_eval)
  have e7: "classify_link ''@joinchat'' = ''unknown''"
    by (simp add: classify_eval)
  have e8: "classify_link ''https://t.me/joinchat/examplebot'' = ''group_invite''"
    by (simp add: classify_eval)
  have e9: "classify_link ''https://t.me/example'' = ''unknown''"
    by (simp add: classify_eval)
  have e10: "classify_link ''  https://t.me/ExampleBot  '' = ''bot''"
    by (simp add: classify_eval)
  from total ci sl r1 r2 r3 r4 e1 e2 e3 e4 e5 e6 e7 e8 e9 e10 show ?thesis
    by blast
qed

theorem classify_link_witness:
  "list_all2 same_letter ''@T.ME/ExampleBot'' ''@t.me/examplebot''
   \<and> has_sigil (lower (strip ''@T.ME/ExampleBot''))
   \<and> has_bot_marker (lower (strip ''@T.ME/ExampleBot''))
   \<and> classify_link ''@T.ME/ExampleBot'' = ''unknown''
   \<and> classify_link ''@T.ME/ExampleBot'' = classify_link ''@t.me/examplebot''
   \<and> \<not> has_sigil (lower (strip ''T.ME/JoinChat/ExampleBot''))
   \<and> has_invite_marker (lower (strip ''T.ME/JoinChat/ExampleBot''))
   \<and> has_bot_marker (lower (strip ''T.ME/JoinChat/ExampleBot''))
   \<and> classify_link ''T.ME/JoinChat/ExampleBot'' = ''group_invite''
   \<and> \<not> has_invite_marker (lower (strip ''T.ME/ExampleBot''))
   \<and> has_bot_marker (lower (strip ''T.ME/ExampleBot''))
   \<and> classify_link ''T.ME/ExampleBot'' = ''bot''
   \<and> \<not> has_bot_marker (lower (strip ''T.ME/Example''))
   \<and> classify_link ''T.ME/Example'' = ''unknown''"
proof -
  note ev = strip_def lower_def lower_char_def isspace_def code_def startswith_def
    has_sigil_def has_invite_marker_def has_bot_marker_def char_of_eq
  have a1: "list_all2 same_letter ''@T.ME/ExampleBot'' ''@t.me/examplebot''"
    by (simp add: same_letter_def is_upper_char_def code_def)
  have a2: "has_sigil (lower (strip ''@T.ME/ExampleBot''))"
    and a3: "has_bot_marker (lower (strip ''@T.ME/ExampleBot''))"
    by (simp_all add: ev)
  have b1: "\<not> has_sigil (lower (strip ''T.ME/JoinChat/ExampleBot''))"
    and b2: "has_invite_marker (lower (strip ''T.ME/JoinChat/ExampleBot''))"
    and b3: "has_bot_marker (lower (strip ''T.ME/JoinChat/ExampleBot''))"
    by (simp_all add: ev)
  have c1: "\<not> has_sigil (lower (strip ''T.ME/ExampleBot''))"
    and c2: "\<not> has_invite_marker (lower (strip ''T.ME/ExampleBot''))"
    and c3: "has_bot_marker (lower (strip ''T.ME/ExampleBot''))"
    by (simp_all add: ev)
  have d1: "\<not> has_sigil (lower (strip ''T.ME/Example''))"
    and d2: "\<not> has_invite_marker (lower (strip ''T.ME/Example''))"
    and d3: "\<not> has_bot_marker (lower (strip ''T.ME/Example''))"
    by (simp_all add: ev)
  from classify_link_total_case_insensitive [of "''@T.ME/ExampleBot''" "''@t.me/examplebot''"] a1 a2
  have A: "classify_link ''@T.ME/ExampleBot'' = ''unknown''"
    and A': "classify_link ''@T.ME/ExampleBot'' = classify_link ''@t.me/examplebot''"
    by blast+
  from classify_link_total_case_insensitive [of "''T.ME/JoinChat/ExampleBot''" "[]"] b1 b2
  have B: "classify_link ''T.ME/JoinChat/ExampleBot'' = ''group_invite''"
    by blast
  from classify_link_total_case_insensitive [of "''T.ME/ExampleBot''" "[]"] c1 c2 c3
  have C: "classify_link ''T.ME/ExampleBot'' = ''bot''"
    by blast
  from classify_link_total_case_insensitive [of "''T.ME/Example''" "[]"] d1 d2 d3
  have D: "classify_link ''T.ME/Example'' = ''unknown''"
    by blast
  from a1 a2 a3 A A' b1 b2 b3 B c2 c3 C d3 D show ?thesis
    by blast
qed

section \<open>Cooldown controller\<close>

lemma find_set_ema:
  "find (\<lambda>r. session_name r = n)
     (map (\<lambda>r. if session_name r = n then r\<lparr>ema_cooldown := e\<rparr> else r) xs)
   = map_option (\<lambda>r. r\<lparr>ema_cooldown := e\<rparr>) (find (\<lambda>r. session_name r = n) xs)"
  by (induction xs) simp_all

lemma stored_estimate_update:
  "stored_estimate db name = Some prev \<Longrightarrow>
   update_ema db name obs = (db', e) \<Longrightarrow>
   e = 0.3 * obs + 0.7 * prev \<and> stored_estimate db' name = Some e"
  by (auto simp: stored_estimate_def update_ema_def Let_def EMA_ALPHA_def find_set_ema
      split: option.splits)

lemma stored_estimate_registered:
  "stored_estimate (add_account_meta empty_db ''acc1'' 42) ''acc1'' = Some 120"
  by (simp add: stored_estimate_def add_account_meta_def insert_or_ignore_account_def
      empty_db_def DEFAULT_COOLDOWN_def)

text \<open>
  C2.  When the account has a stored estimate \<open>prev\<close>, \<open>update_ema\<close> returns
  \<open>0.3 * observed_seconds + 0.7 * prev\<close> and that value is the estimate stored afterwards.
  The scenario of the claim is the witness: after registering \<open>acc1\<close> with owner 42
  (estimate 120), an update with 108 seconds gives 116.4.
\<close>

theorem update_ema_existing:
  "stored_estimate db name = Some prev \<Longrightarrow>
   snd (update_ema db name observed_seconds) = 0.3 * observed_seconds + 0.7 * prev
   \<and> stored_estimate (fst (update_ema db name observed_seconds)) name
       = Some (0.3 * observed_seconds + 0.7 * prev)"
  using stored_estimate_update [of db name prev observed_seconds
      "fst (update_ema db name observed_seconds)" "snd (update_ema db name observed_seconds)"]
  by simp

theorem update_ema_scenario:
  "stored_estimate (add_account_meta empty_db ''acc1'' 42) ''acc1'' = Some 120
   \<and> snd (update_ema (add_account_meta empty_db ''acc1'' 42) ''acc1'' 108) = 116.4
   \<and> stored_estimate (fst (update_ema (add_account_meta empty_db ''acc1'' 42) ''acc1'' 108))
        ''acc1'' = Some 116.4"
  using update_ema_existing [OF stored_estimate_registered, of 108] stored_estimate_registered
  by simp

lemma all_positive_insert:
  "all_positive db \<Longrightarrow> 0 < e \<Longrightarrow> all_positive (insert_or_ignore_account db n ow e)"
  by (simp add: all_positive_def insert_or_ignore_account_def split: option.splits)

lemma all_positive_update:
  assumes a: "all_positive db" and o: "0 \<le> obs"
  shows "all_positive (fst (update_ema db n obs))"
proof (cases "find (\<lambda>r. session_name r = n) (accounts db)")
  case None
  then show ?thesis
    using a all_positive_insert [of db DEFAULT_COOLDOWN n 0]
    by (simp add: update_ema_def Let_def DEFAULT_COOLDOWN_def)
next
  case (Some row)
  then have "row \<in> set (accounts db)"
    by (auto simp: find_Some_iff)
  then have "0 < ema_cooldown row"
    using a by (simp add: all_positive_def list_all_iff)
  then have "0 < 0.3 * obs + 0.7 * ema_cooldown row"
    using o by (simp add: add_nonneg_pos)
  then show ?thesis
    using a Some
    by (auto simp: update_ema_def Let_def EMA_ALPHA_def all_positive_def list_all_iff)
qed

lemma all_positive_apply:
  "all_positive db \<Longrightarrow> observed_nonneg c \<Longrightarrow> all_positive (apply_call db c)"
  by (cases c)
    (simp_all add: all_positive_update all_positive_insert add_account_meta_def
      DEFAULT_COOLDOWN_def)

text \<open>
  C7.  Start from a store in which every estimate is strictly positive (the empty store
  is one; the default a registration stores is 120).  After each call of any sequence of
  registrations and of updates whose observed seconds are not negative, every stored
  estimate is strictly positive.
\<close>

theorem estimates_stay_positive:
  "all_positive db \<Longrightarrow> list_all observed_nonneg cs \<Longrightarrow>
   list_all all_positive (states_after db cs)"
proof (induction cs arbitrary: db)
  case Nil
  show ?case by simp
next
  case (Cons c cs)
  from Cons.prems have step: "all_positive (apply_call db c)"
    by (simp add: all_positive_apply)
  from Cons.prems have rest: "list_all observed_nonneg cs"
    by simp
  from Cons.IH [OF step rest] step show ?case
    by simp
qed

theorem estimates_stay_positive_witness:
  "all_positive empty_db
   \<and> list_all observed_nonneg
       [Register ''acc1'' 42, Update ''acc1'' 0, Update ''acc2'' 5, Update ''acc2'' 0]
   \<and> list_all all_positive (states_after empty_db
       [Register ''acc1'' 42, Update ''acc1'' 0, Update ''acc2'' 5, Update ''acc2'' 0])
   \<and> map (\<lambda>d. map ema_cooldown (accounts d)) (states_after empty_db
       [Register ''acc1'' 42, Update ''acc1'' 0, Update ''acc2'' 5, Update ''acc2'' 0])
     = [[120], [84], [84, 120], [84, 84]]"
proof -
  have e: "all_positive empty_db"
    by (simp add: all_positive_def empty_db_def)
  have n: "list_all observed_nonneg
       [Register ''acc1'' 42, Update ''acc1'' 0, Update ''acc2'' 5, Update ''acc2'' 0]"
    by simp
  have v: "map (\<lambda>d. map ema_cooldown (accounts d)) (states_after empty_db
       [Register ''acc1'' 42, Update ''acc1'' 0, Update ''acc2'' 5, Update ''acc2'' 0])
     = [[120], [84], [84, 120], [84, 84]]"
    by (simp add: empty_db_def add_account_meta_def insert_or_ignore_account_def
        update_ema_def Let_def EMA_ALPHA_def DEFAULT_COOLDOWN_def)
  from estimates_stay_positive [OF e n] e n v show ?thesis
    by simp
qed

section \<open>Tokens, digits and lines\<close>

lemma split_from_tokens:
  "list_all (\<lambda>c. \<not> isspace c) cur \<Longrightarrow> list_all token (split_from cur s)"
  by (induction s arbitrary: cur) (simp_all add: token_def)

lemma py_split_tokens: "t \<in> set (py_split s) \<Longrightarrow> t \<noteq> [] \<and> (\<forall>c\<in>set t. \<not> isspace c)"
  using split_from_tokens [of "[]" s] by (simp add: py_split_def token_def list_all_iff)

lemma dropWhile_none: "\<forall>c\<in>set t. \<not> P c \<Longrightarrow> dropWhile P t = t"
  by (cases t) simp_all

lemma strip_token: "\<forall>c\<in>set t. \<not> isspace c \<Longrightarrow> strip t = t"
  by (simp add: strip_def dropWhile_none)

lemma isspace_newline: "isspace newline"
  by (simp add: isspace_def newline_def code_def)

lemma set_strip: "set (strip s) \<subseteq> set s"
proof -
  have "set (strip s) \<subseteq> set (dropWhile isspace s)"
    unfolding strip_def by (metis set_dropWhileD set_rev subsetI)
  also have "\<dots> \<subseteq> set s" by (meson set_dropWhileD subsetI)
  finally show ?thesis .
qed

lemma digit_char_not_newline: "d < 10 \<Longrightarrow> digit_char d \<noteq> newline"
proof
  assume d: "d < 10" and e: "digit_char d = newline"
  then have "(of_char (digit_char d) :: nat) = of_char newline" by simp
  then show False using d by (simp add: digit_char_def newline_def)
qed

lemma digits_no_newline: "newline \<notin> set (digits n)"
proof (induction n rule: digits.induct)
  case (1 n)
  show ?case
  proof (cases "n < 10")
    case True
    then show ?thesis using digit_char_not_newline [of n] by (simp add: digits.simps [of n])
  next
    case False
    then show ?thesis using 1 digit_char_not_newline [of "n mod 10"]
      by (simp add: digits.simps [of n])
  qed
qed

lemma punct_not_newline: "CHR ''-'' \<noteq> newline" "CHR ''.'' \<noteq> newline"
  "newline \<noteq> CHR ''-''" "newline \<noteq> CHR ''.''"
  by (simp_all add: newline_def)

lemma format_f_no_newline: "newline \<notin> set (format_f p x)"
  by (simp add: format_f_def Let_def digits_no_newline punct_not_newline)

lemma assist_header_no_newline: "newline \<notin> set name \<Longrightarrow> newline \<notin> set (assist_header name ema)"
  using format_f_no_newline [of 0 ema] by (simp add: assist_header_def) (simp add: newline_def)

lemma lines_from_line:
  "newline \<notin> set s \<Longrightarrow> lines_from cur (s @ newline # rest) = (cur @ s) # lines_from [] rest"
  by (induction s arbitrary: cur) auto

lemma lines_from_urls:
  "\<forall>u\<in>set urls. newline \<notin> set u \<Longrightarrow>
   lines_from [] (concat (map (\<lambda>u. u @ [newline]) urls)) = urls"
proof (induction urls)
  case Nil
  then show ?case by simp
next
  case (Cons u urls)
  then show ?case using lines_from_line [of u "[]" "concat (map (\<lambda>u. u @ [newline]) urls)"]
    by simp
qed

lemma file_lines_assist_file:
  assumes "newline \<notin> set name" and "\<forall>u\<in>set urls. newline \<notin> set u"
  shows "file_lines (assist_file name ema urls) = assist_header name ema # [] # urls"
proof -
  have h: "newline \<notin> set (assist_header name ema)"
    using assms(1) by (rule assist_header_no_newline)
  have "lines_from [] (assist_header name ema @ newline # (newline # concat (map (\<lambda>u. u @ [newline]) urls)))
        = ([] @ assist_header name ema) # lines_from [] (newline # concat (map (\<lambda>u. u @ [newline]) urls))"
    using h by (rule lines_from_line)
  then show ?thesis using lines_from_urls [OF assms(2)]
    by (simp add: file_lines_def assist_file_def)
qed

section \<open>Export\<close>

lemma pending_group_urls_matching: "pending_group_urls db = map url (matching_entries db)"
proof -
  have "(\<lambda>r. status r = ''pending'' \<and> (kind r = ''group_invite'' \<or> kind r = ''unknown''))
      = (\<lambda>r. status r = ''pending'' \<and> kind r \<in> {''group_invite'', ''unknown''})"
    by auto
  then show ?thesis
    by (simp add: pending_group_urls_def matching_entries_def)
qed

lemma cmd_export_assist_parts:
  assumes "py_split text = c # arg # rest"
  shows "cmd_export_assist db text open_raises =
     (if matching_entries db = []
      then \<lparr>written = None, ended = Inr (Reply ''No pending group links.'')\<rparr>
      else case open_raises of
             Some e \<Rightarrow> \<lparr>written = None, ended = Inl e\<rparr>
           | None \<Rightarrow>
               \<lparr>written = Some (''assist_'' @ arg @ ''.txt'',
                   assist_file arg
                     (case stored_estimate db arg of Some e \<Rightarrow> e | None \<Rightarrow> DEFAULT_COOLDOWN)
                     (map url (matching_entries db))),
                ended = Inl TypeError\<rparr>)"
proof -
  have "arg \<in> set (py_split text)" using assms by simp
  then have "strip arg = arg" using py_split_tokens strip_token by blast
  then show ?thesis using assms
    by (simp add: cmd_export_assist_def Let_def stored_estimate_def pending_group_urls_matching
        split: option.splits)
qed

lemma split_export: "py_split ''/export_assist acc1'' = [''/export_assist'', ''acc1'']"
  by (simp add: py_split_def isspace_def code_def)

lemma one_link_db_value:
  "one_link_db = \<lparr>links = [\<lparr>url = ''https://t.me/+AbCd1234'', kind = ''group_invite'',
       status = ''pending'', last_checked = 0, tries = 0\<rparr>], accounts = []\<rparr>"
  by (simp add: one_link_db_def ingest_def classify_msg_def empty_db_def insert_or_ignore_link_def
      startswith_def endswith_def Let_def classify_link_def strip_def lower_def lower_char_def
      isspace_def code_def char_of_eq)

lemma format_120: "format_f 0 DEFAULT_COOLDOWN = ''120''"
  by (simp add: format_f_def round_half_even_def DEFAULT_COOLDOWN_def digits.simps digit_char_def
      Let_def char_of_eq)

lemma format_116: "format_f 0 (116.4::real) = ''116''"
proof -
  have "\<lfloor>116.4::real\<rfloor> = 116" by linarith
  then show ?thesis
    by (simp add: format_f_def round_half_even_def digits.simps digit_char_def Let_def char_of_eq)
qed

text \<open>
  C4, as stated, fails: with one matching entry the file the handler writes has three
  lines, not two.  The header is followed by an empty line (the handler writes two line
  feeds after it), and only then by the identifier.  (The handler then ends with the
  \<open>TypeError\<close> of \<open>types.InputFile\<close>.)
\<close>

theorem export_line_count_counterexample:
  "map url (matching_entries one_link_db) = [''https://t.me/+AbCd1234'']
   \<and> cmd_export_assist one_link_db ''/export_assist acc1'' None
       = \<lparr>written = Some (''assist_acc1.txt'',
            ''Recommended delay between joins for acc1: 120 seconds'' @ [newline, newline]
            @ ''https://t.me/+AbCd1234'' @ [newline]),
          ended = Inl TypeError\<rparr>
   \<and> written_lines (cmd_export_assist one_link_db ''/export_assist acc1'' None)
       = Some [''Recommended delay between joins for acc1: 120 seconds'', [],
               ''https://t.me/+AbCd1234'']"
proof -
  have u: "matching_entries one_link_db = [\<lparr>url = ''https://t.me/+AbCd1234'',
       kind = ''group_invite'', status = ''pending'', last_checked = 0, tries = 0\<rparr>]"
    by (simp add: one_link_db_value matching_entries_def)
  have e: "stored_estimate one_link_db ''acc1'' = None"
    by (simp add: one_link_db_value stored_estimate_def)
  have c: "cmd_export_assist one_link_db ''/export_assist acc1'' None
       = \<lparr>written = Some (''assist_acc1.txt'',
            ''Recommended delay between joins for acc1: 120 seconds'' @ [newline, newline]
            @ ''https://t.me/+AbCd1234'' @ [newline]),
          ended = Inl TypeError\<rparr>"
    using cmd_export_assist_parts [OF split_export, of one_link_db None]
    by (simp add: u e assist_file_def assist_header_def format_120)
  have l: "file_lines (''Recommended delay between joins for acc1: 120 seconds'' @ [newline, newline]
               @ ''https://t.me/+AbCd1234'' @ [newline])
       = [''Recommended delay between joins for acc1: 120 seconds'', [], ''https://t.me/+AbCd1234'']"
    by (simp add: file_lines_def newline_def)
  from u c l show ?thesis by (simp add: written_lines_def)
qed

text \<open>
  C4, amended.  For a command with a session name: when no pending entry is of category
  \<open>group_invite\<close> or \<open>unknown\<close>, the handler replies ``No pending group links.'' and
  writes no file.  When there is such an entry and the file can be opened, the handler
  writes the file \<open>assist_<name>.txt\<close>; when no identifier contains a line feed, its
  lines are the recommended-delay header for the session's estimate (the default for an
  unknown session), one empty line, and then the identifiers of the matching entries,
  one per line in table order, with nothing after them: two lines more than there are
  matching entries.  How the handler ends after it has written the file is left out.
\<close>

theorem export_lines:
  assumes "py_split text = c # arg # rest"
  shows "(matching_entries db = [] \<longrightarrow>
            cmd_export_assist db text open_raises
            = \<lparr>written = None, ended = Inr (Reply ''No pending group links.'')\<rparr>)
       \<and> (matching_entries db \<noteq> []
            \<and> list_all (\<lambda>r. newline \<notin> set (url r)) (matching_entries db) \<longrightarrow>
            map_option fst (written (cmd_export_assist db text None))
              = Some (''assist_'' @ arg @ ''.txt'')
            \<and> written_lines (cmd_export_assist db text None)
              = Some (assist_header arg
                        (case stored_estimate db arg of Some e \<Rightarrow> e | None \<Rightarrow> DEFAULT_COOLDOWN)
                      # [] # map url (matching_entries db))
            \<and> map_option length (written_lines (cmd_export_assist db text None))
              = Some (2 + length (matching_entries db)))"
proof -
  have "arg \<in> set (py_split text)" using assms by simp
  then have "\<forall>c\<in>set arg. \<not> isspace c" using py_split_tokens by blast
  then have n: "newline \<notin> set arg" using isspace_newline by blast
  have lines: "list_all (\<lambda>r. newline \<notin> set (url r)) (matching_entries db) \<Longrightarrow>
      file_lines (assist_file arg e (map url (matching_entries db)))
      = assist_header arg e # [] # map url (matching_entries db)" for e
    using file_lines_assist_file [OF n, of "map url (matching_entries db)" e]
    by (simp add: list_all_iff)
  show ?thesis
    using lines cmd_export_assist_parts [OF assms, of db]
    by (simp add: written_lines_def)
qed

theorem export_lines_witness:
  "py_split ''/export_assist acc1'' = [''/export_assist'', ''acc1'']
   \<and> map url (matching_entries four_links_db) = [''https://t.me/+AbCd1234'', ''@somebot'']
   \<and> list_all (\<lambda>r. newline \<notin> set (url r)) (matching_entries four_links_db)
   \<and> map_option fst (written (cmd_export_assist four_links_db ''/export_assist acc1'' None))
       = Some ''assist_acc1.txt''
   \<and> written_lines (cmd_export_assist four_links_db ''/export_assist acc1'' None)
       = Some [''Recommended delay between joins for acc1: 116 seconds'', [],
               ''https://t.me/+AbCd1234'', ''@somebot'']
   \<and> matching_entries empty_db = []
   \<and> cmd_export_assist empty_db ''/export_assist acc1'' (Some OSError)
       = \<lparr>written = None, ended = Inr (Reply ''No pending group links.'')\<rparr>"
proof -
  have m: "matching_entries four_links_db =
      [\<lparr>url = ''https://t.me/+AbCd1234'', kind = ''group_invite'', status = ''pending'',
          last_checked = 0, tries = 0\<rparr>,
       \<lparr>url = ''@somebot'', kind = ''unknown'', status = ''pending'',
          last_checked = 0, tries = 0\<rparr>]"
    by (simp add: matching_entries_def four_links_db_def)
  have u: "map url (matching_entries four_links_db) = [''https://t.me/+AbCd1234'', ''@somebot'']"
    by (simp add: m)
  have n: "list_all (\<lambda>r. newline \<notin> set (url r)) (matching_entries four_links_db)"
    by (simp add: m newline_def)
  have ne: "matching_entries four_links_db \<noteq> []"
    by (simp add: m)
  have e: "stored_estimate four_links_db ''acc1'' = Some 116.4"
    by (simp add: four_links_db_def stored_estimate_def)
  have z: "matching_entries empty_db = []"
    by (simp add: matching_entries_def empty_db_def)
  have h: "assist_header ''acc1'' 116.4 = ''Recommended delay between joins for acc1: 116 seconds''"
    using format_116 by (simp add: assist_header_def)
  from export_lines [OF split_export, of four_links_db None] ne n
  have 1: "map_option fst (written (cmd_export_assist four_links_db ''/export_assist acc1'' None))
       = Some ''assist_acc1.txt''"
    and 2: "written_lines (cmd_export_assist four_links_db ''/export_assist acc1'' None)
       = Some (assist_header ''acc1''
                 (case stored_estimate four_links_db ''acc1'' of Some e \<Rightarrow> e
                  | None \<Rightarrow> DEFAULT_COOLDOWN)
               # [] # map url (matching_entries four_links_db))"
    by simp_all
  from export_lines [OF split_export, of empty_db "Some OSError"] z
  have 3: "cmd_export_assist empty_db ''/export_assist acc1'' (Some OSError)
       = \<lparr>written = None, ended = Inr (Reply ''No pending group links.'')\<rparr>"
    by simp
  from 2 h have l2: "written_lines (cmd_export_assist four_links_db ''/export_assist acc1'' None)
       = Some [''Recommended delay between joins for acc1: 116 seconds'', [],
               ''https://t.me/+AbCd1234'', ''@somebot'']"
    by (simp add: e u)
  from split_export u n 1 l2 z 3 show ?thesis
    by blast
qed

section \<open>Outcome reports\<close>

lemma cmd_report_parts:
  assumes "py_split text = c # name # res # rest"
  shows "cmd_report db text =
     (if res = ''ok'' then
        Inr (fst (update_ema db name (DEFAULT_COOLDOWN * 0.9)),
             Reply (''Recorded success. ''
                    @ new_ema_text name (snd (update_ema db name (DEFAULT_COOLDOWN * 0.9)))))
      else if res = ''fail'' then
        Inr (fst (update_ema db name (DEFAULT_COOLDOWN * 1.2)),
             Reply (''Recorded failure. ''
                    @ new_ema_text name (snd (update_ema db name (DEFAULT_COOLDOWN * 1.2)))))
      else if res = ''flood'' \<and> rest \<noteq> [] \<and> isdigit (hd rest) then
        (case py_int (hd rest) of
           Inl e \<Rightarrow> Inl e
         | Inr sec \<Rightarrow>
             Inr (fst (update_ema db name (real sec)),
                  Reply (''Recorded FloodWait '' @ digits sec @ ''s. ''
                         @ new_ema_text name (snd (update_ema db name (real sec))))))
      else Inr (db, Reply report_invalid))"
proof -
  have "name \<in> set (py_split text)" "res \<in> set (py_split text)" using assms by simp_all
  then have s: "strip name = name" "strip res = res" using py_split_tokens strip_token by blast+
  have p: "py_split text ! 1 = name" "py_split text ! 2 = res" "\<not> length (py_split text) < 3"
    using assms by simp_all
  show ?thesis
  proof (cases rest)
    case Nil
    then have "\<not> 4 \<le> length (py_split text)" using assms by simp
    then show ?thesis using Nil s p
      by (simp add: cmd_report_def Let_def case_prod_beta)
  next
    case (Cons tok more)
    then have "4 \<le> length (py_split text)" "py_split text ! 3 = tok" using assms by simp_all
    then show ?thesis using Cons s p
      by (simp add: cmd_report_def Let_def case_prod_beta split: sum.splits)
  qed
qed

lemma cmd_report_short:
  "length (py_split text) < 3 \<Longrightarrow> cmd_report db text = Inr (db, Reply report_usage)"
  by (simp add: cmd_report_def Let_def)

lemma split_report_superscript:
  "py_split (''/report acc1 flood '' @ [CHR 0xB2]) = [''/report'', ''acc1'', ''flood'', [CHR 0xB2]]"
  by (simp add: py_split_def isspace_def code_def)

text \<open>
  C3 at the failing input.  The token after \<open>flood\<close> is the superscript two (0xB2):
  \<open>str.isdigit\<close> accepts it, \<open>int\<close> raises \<open>ValueError\<close>, and the handler ends with
  that exception instead of the usage reply.  The store is not touched.
\<close>

theorem cmd_report_superscript_digit:
  "isdigit [CHR 0xB2] \<and> cmd_report db (''/report acc1 flood '' @ [CHR 0xB2]) = Inl ValueError"
  using cmd_report_parts [OF split_report_superscript, of db]
  by (simp add: isdigit_def isdigit_char_def py_int_def isdecimal_char_def code_def)

section \<open>Ingestion\<close>

lemma ingest_gate:
  "startswith t ''http'' \<or> startswith t ''@'' \<Longrightarrow>
   ingest db t = insert_or_ignore_link db (strip t) (classify_link t)"
  by (simp add: ingest_def classify_msg_def Let_def)

lemma ingest_cases:
  "ingest db t = db \<or> ingest db t = insert_or_ignore_link db (strip t) (classify_link t)"
  by (simp add: ingest_def classify_msg_def Let_def)

lemma insert_or_ignore_link_present:
  "find (\<lambda>r. url r = u) (links (insert_or_ignore_link db u k)) \<noteq> None"
proof (cases "find (\<lambda>r. url r = u) (links db)")
  case None
  then have "\<exists>x. x \<in> set (links (insert_or_ignore_link db u k)) \<and> url x = u"
    by (auto simp: insert_or_ignore_link_def)
  then show ?thesis by (simp add: find_None_iff)
next
  case (Some row)
  then show ?thesis by (simp add: insert_or_ignore_link_def)
qed

lemma insert_or_ignore_link_again:
  "insert_or_ignore_link (insert_or_ignore_link db u k) u k' = insert_or_ignore_link db u k"
  using insert_or_ignore_link_present [of u db k]
  by (auto simp: insert_or_ignore_link_def [of "insert_or_ignore_link db u k"] split: option.splits)

lemma distinct_filter_one:
  "distinct (map f xs) \<Longrightarrow> x \<in> set xs \<Longrightarrow> filter (\<lambda>r. f r = f x) xs = [x]"
proof (induction xs)
  case Nil
  then show ?case by simp
next
  case (Cons a xs)
  show ?case
  proof (cases "a = x")
    case True
    have "f a \<notin> f ` set xs" using Cons.prems(1) by simp
    then have "\<forall>r\<in>set xs. f r \<noteq> f x" using True by (metis imageI)
    then have "filter (\<lambda>r. f r = f x) xs = []"
      by (simp add: filter_empty_conv)
    then show ?thesis using True by simp
  next
    case False
    then have "x \<in> set xs" using Cons.prems(2) by simp
    moreover have "f a \<noteq> f x" using Cons.prems(1) calculation by auto
    ultimately show ?thesis using Cons by simp
  qed
qed

lemma rows_with_url_insert:
  assumes "distinct (map url (links db))"
  shows "length (rows_with_url (insert_or_ignore_link db u k) u) = 1
       \<and> (rows_with_url db u = [] \<longrightarrow> map kind (rows_with_url (insert_or_ignore_link db u k) u) = [k])
       \<and> (rows_with_url db u \<noteq> [] \<longrightarrow> insert_or_ignore_link db u k = db)"
proof (cases "find (\<lambda>r. url r = u) (links db)")
  case None
  then have "rows_with_url db u = []"
    by (auto simp: rows_with_url_def find_None_iff filter_empty_conv)
  then show ?thesis using None
    by (simp add: rows_with_url_def insert_or_ignore_link_def)
next
  case (Some row)
  then have r: "row \<in> set (links db)" "url row = u"
    by (auto simp: find_Some_iff)
  then have "rows_with_url db u = [row]"
    using distinct_filter_one [OF assms r(1)] by (simp add: rows_with_url_def)
  then show ?thesis using Some
    by (simp add: insert_or_ignore_link_def)
qed

lemma insert_or_ignore_link_distinct:
  assumes "distinct (map url (links db))"
  shows "distinct (map url (links (insert_or_ignore_link db u k)))"
proof (cases "find (\<lambda>r. url r = u) (links db)")
  case None
  then have "u \<notin> url ` set (links db)"
    by (fastforce simp: find_None_iff)
  then show ?thesis using assms None
    by (simp add: insert_or_ignore_link_def)
next
  case (Some row)
  then show ?thesis using assms
    by (simp add: insert_or_ignore_link_def)
qed

lemma ingest_distinct:
  "distinct (map url (links db)) \<Longrightarrow> distinct (map url (links (ingest db t)))"
  using ingest_cases [of db t] insert_or_ignore_link_distinct [of db "strip t" "classify_link t"]
  by auto

text \<open>
  C6.  Let the table hold each \<open>url\<close> at most once (its \<open>UNIQUE\<close> constraint), let the
  first message be one the handler ingests (it begins with \<open>http\<close> or \<open>@\<close>), and let the
  second message have the same text after trimming.  Then the second message leaves the
  store as the first left it, exactly one row has the trimmed text as \<open>url\<close>, its kind is
  the one \<open>classify_link\<close> gave the first message when the identifier was new, and when
  the identifier was stored before, neither message changes the store.
\<close>

theorem ingest_twice:
  assumes d: "distinct (map url (links db))"
    and g: "startswith t1 ''http'' \<or> startswith t1 ''@''"
    and s: "strip t2 = strip t1"
  shows "ingest (ingest db t1) t2 = ingest db t1
       \<and> length (rows_with_url (ingest (ingest db t1) t2) (strip t1)) = 1
       \<and> (rows_with_url db (strip t1) = [] \<longrightarrow>
            map kind (rows_with_url (ingest (ingest db t1) t2) (strip t1)) = [classify_link t1])
       \<and> (rows_with_url db (strip t1) \<noteq> [] \<longrightarrow> ingest (ingest db t1) t2 = db)"
proof -
  have 1: "ingest db t1 = insert_or_ignore_link db (strip t1) (classify_link t1)"
    using g by (rule ingest_gate)
  have 2: "ingest (ingest db t1) t2 = ingest db t1"
    using ingest_cases [of "ingest db t1" t2] s
    by (auto simp: 1 insert_or_ignore_link_again)
  show ?thesis
    using rows_with_url_insert [OF d, of "strip t1" "classify_link t1"]
    by (simp add: 2) (simp add: 1)
qed

theorem ingest_twice_witness:
  "distinct (map url (links empty_db))
   \<and> startswith ''https://t.me/+AbCd1234'' ''http''
   \<and> strip ''https://t.me/+AbCd1234  '' = strip ''https://t.me/+AbCd1234''
   \<and> ingest (ingest empty_db ''https://t.me/+AbCd1234'') ''https://t.me/+AbCd1234  ''
       = ingest empty_db ''https://t.me/+AbCd1234''
   \<and> map kind (rows_with_url
        (ingest (ingest empty_db ''https://t.me/+AbCd1234'') ''https://t.me/+AbCd1234  '')
        (strip ''https://t.me/+AbCd1234'')) = [''group_invite'']"
proof -
  have d: "distinct (map url (links empty_db))" by (simp add: empty_db_def)
  have g: "startswith ''https://t.me/+AbCd1234'' ''http''" by (simp add: startswith_def)
  have s: "strip ''https://t.me/+AbCd1234  '' = strip ''https://t.me/+AbCd1234''"
    by (simp add: strip_def isspace_def code_def)
  have e: "rows_with_url empty_db (strip ''https://t.me/+AbCd1234'') = []"
    by (simp add: rows_with_url_def empty_db_def)
  have c: "classify_link ''https://t.me/+AbCd1234'' = ''group_invite''"
    by (simp add: classify_link_def strip_def lower_def lower_char_def isspace_def code_def
        startswith_def endswith_def Let_def)
  have t: "ingest (ingest empty_db ''https://t.me/+AbCd1234'') ''https://t.me/+AbCd1234  ''
       = ingest empty_db ''https://t.me/+AbCd1234''
     \<and> map kind (rows_with_url
        (ingest (ingest empty_db ''https://t.me/+AbCd1234'') ''https://t.me/+AbCd1234  '')
        (strip ''https://t.me/+AbCd1234'')) = [classify_link ''https://t.me/+AbCd1234'']"
    using ingest_twice [OF d disjI1 [OF g] s] e by blast
  from t d g s show ?thesis
    unfolding c by blast
qed

section \<open>Onboarding\<close>






lemmas handler_defs =
  enter_details_def add_account_start_def got_session_name_def got_api_id_def got_api_hash_def
  got_phone_def got_code_def got_password_def save_session_def sign_in_failed_def
  send_code_failed_def reply_to_def set_state_def clear_state_def pop_login_def log_call_def
  connect_ok_def disconnect_def initial_world_def no_data_def

lemmas text_defs = strip_def isspace_def code_def isdigit_def isdigit_char_def py_int_def
  isdecimal_char_def

lemma enter_details_value:
  "enter_details (initial_world\<lparr>store := db\<rparr>) 7 ''acc1'' ''12345'' ''0123abcd'' ''+15550100'' = Inr w
   \<Longrightarrow> store w = db \<and> next_client w = 1 \<and> connected w = {0} \<and> fsm_state w 7 = Some waiting_code
     \<and> pending_login w 7 = Some \<lparr>telethon_client = 0, phone = ''+15550100'',
          login_session_name = ''acc1'', api_id = 12345, api_hash = ''0123abcd''\<rparr>
     \<and> map made (provider_log w) = [Connect, SendCodeRequest]"
  by (auto simp: handler_defs text_defs Let_def)

lemma enter_details_returns:
  "\<exists>w. enter_details (initial_world\<lparr>store := db\<rparr>) 7 ''acc1'' ''12345'' ''0123abcd'' ''+15550100'' = Inr w"
  by (simp add: handler_defs text_defs Let_def)

lemma awaiting_code_value:
  "store (awaiting_code db ''acc1'') = db \<and> next_client (awaiting_code db ''acc1'') = 1
   \<and> connected (awaiting_code db ''acc1'') = {0}
   \<and> fsm_state (awaiting_code db ''acc1'') 7 = Some waiting_code
   \<and> pending_login (awaiting_code db ''acc1'') 7 = Some \<lparr>telethon_client = 0, phone = ''+15550100'',
          login_session_name = ''acc1'', api_id = 12345, api_hash = ''0123abcd''\<rparr>
   \<and> map made (provider_log (awaiting_code db ''acc1'')) = [Connect, SendCodeRequest]"
proof -
  obtain w where w: "enter_details (initial_world\<lparr>store := db\<rparr>) 7 ''acc1'' ''12345'' ''0123abcd'' ''+15550100'' = Inr w"
    using enter_details_returns by blast
  then have "awaiting_code db ''acc1'' = w" by (simp add: awaiting_code_def)
  then show ?thesis using enter_details_value [OF w] by simp
qed





section \<open>Provider calls\<close>

lemma got_phone_calls:
  "got_phone w uid text cr sr = Inr w1 \<Longrightarrow>
   one_fallback (calls_made w w1) \<and> (list_ex failed (calls_made w w1) \<longrightarrow> fsm_state w1 uid = None)"
  by (auto simp: got_phone_def send_code_failed_def reply_to_def set_state_def clear_state_def
      log_call_def connect_ok_def disconnect_def calls_made_def failed_def only_disconnects_def
      Let_def split: option.splits exn.splits)

lemma got_code_calls:
  "one_fallback (calls_made w (got_code w uid text r1 r2 r3))
   \<and> (list_ex failed (calls_made w (got_code w uid text r1 r2 r3)) \<longrightarrow>
        fsm_state (got_code w uid text r1 r2 r3) uid = None)"
  by (auto simp: got_code_def save_session_def sign_in_failed_def reply_to_def set_state_def
      clear_state_def pop_login_def log_call_def connect_ok_def disconnect_def calls_made_def
      failed_def only_disconnects_def Let_def split: option.splits exn.splits)

lemma got_password_calls:
  "one_fallback (calls_made w (got_password w uid text r1 r3))
   \<and> (list_ex failed (calls_made w (got_password w uid text r1 r3)) \<longrightarrow>
        fsm_state (got_password w uid text r1 r3) uid = None)"
  by (auto simp: got_password_def save_session_def sign_in_failed_def reply_to_def set_state_def
      clear_state_def pop_login_def log_call_def connect_ok_def disconnect_def calls_made_def
      failed_def only_disconnects_def Let_def split: option.splits exn.splits)

lemma sign_in_twice_calls:
  "map made (calls_made (awaiting_code empty_db ''acc1'')
      (got_code (awaiting_code empty_db ''acc1'') 7 ''11111''
         (Some (Exception ''code invalid'')) (Some (Exception ''code invalid'')) None))
   = [SignIn, SignInCodeOnly, Disconnect]
   \<and> map raised (calls_made (awaiting_code empty_db ''acc1'')
      (got_code (awaiting_code empty_db ''acc1'') 7 ''11111''
         (Some (Exception ''code invalid'')) (Some (Exception ''code invalid'')) None))
   = [Some (Exception ''code invalid''), Some (Exception ''code invalid''), None]"
  using awaiting_code_value [of empty_db]
  by (simp add: got_code_def sign_in_failed_def reply_to_def clear_state_def pop_login_def
      log_call_def disconnect_def calls_made_def Let_def)

lemma no_retry_fields:
  "map made es = [SignIn, SignInCodeOnly, Disconnect] \<Longrightarrow>
   map raised es = [Some (Exception a), Some (Exception b), None] \<Longrightarrow> \<not> no_retry es"
  by (auto simp: failed_def only_disconnects_def map_eq_Cons_conv)

lemma failed_fields:
  "map made es = [SignIn, SignInCodeOnly, Disconnect] \<Longrightarrow>
   map raised es = [Some (Exception a), Some (Exception b), None] \<Longrightarrow> list_ex failed es"
  by (auto simp: failed_def map_eq_Cons_conv)

text \<open>
  C8, as stated, fails.  In \<open>got_code\<close> the first \<open>sign_in\<close> raises, and the handler calls
  \<open>sign_in\<close> again, with the code alone, before it gives up.
\<close>

theorem sign_in_retried_counterexample:
  "map made (calls_made (awaiting_code empty_db ''acc1'')
      (got_code (awaiting_code empty_db ''acc1'') 7 ''11111''
         (Some (Exception ''code invalid'')) (Some (Exception ''code invalid'')) None))
   = [SignIn, SignInCodeOnly, Disconnect]
   \<and> \<not> no_retry (calls_made (awaiting_code empty_db ''acc1'')
      (got_code (awaiting_code empty_db ''acc1'') 7 ''11111''
         (Some (Exception ''code invalid'')) (Some (Exception ''code invalid'')) None))"
proof -
  note c = sign_in_twice_calls
  from c have m: "map made (calls_made (awaiting_code empty_db ''acc1'')
      (got_code (awaiting_code empty_db ''acc1'') 7 ''11111''
         (Some (Exception ''code invalid'')) (Some (Exception ''code invalid'')) None))
   = [SignIn, SignInCodeOnly, Disconnect]" by (rule conjunct1)
  from c have r: "map raised (calls_made (awaiting_code empty_db ''acc1'')
      (got_code (awaiting_code empty_db ''acc1'') 7 ''11111''
         (Some (Exception ''code invalid'')) (Some (Exception ''code invalid'')) None))
   = [Some (Exception ''code invalid''), Some (Exception ''code invalid''), None]"
    by (rule conjunct2)
  from m no_retry_fields [OF m r] show ?thesis by (rule conjI)
qed

text \<open>
  C8, amended.  In each of the three handlers that call the provider, a failed first
  \<open>sign_in\<close> is followed at once by one \<open>sign_in\<close> with the code alone, and after any other
  failed call (\<open>connect\<close>, \<open>send_code_request\<close>, the \<open>sign_in\<close> with the code alone, the
  \<open>sign_in\<close> with the password) the handler calls nothing but \<open>disconnect\<close>.  Whenever a
  call failed, the operator has no conversation state when the handler ends, so
  that onboarding goes on only after a new \<open>/add_account\<close>.
\<close>

theorem provider_calls_one_fallback:
  "(got_phone w uid text connect_raises send_code_raises = Inr w1 \<longrightarrow>
      one_fallback (calls_made w w1)
      \<and> (list_ex failed (calls_made w w1) \<longrightarrow> fsm_state w1 uid = None))
   \<and> one_fallback (calls_made w (got_code w uid text sign_in_raises fallback_raises file_connect_raises))
   \<and> (list_ex failed
         (calls_made w (got_code w uid text sign_in_raises fallback_raises file_connect_raises)) \<longrightarrow>
        fsm_state (got_code w uid text sign_in_raises fallback_raises file_connect_raises) uid = None)
   \<and> one_fallback (calls_made w (got_password w uid text password_raises file_connect_raises))
   \<and> (list_ex failed (calls_made w (got_password w uid text password_raises file_connect_raises)) \<longrightarrow>
        fsm_state (got_password w uid text password_raises file_connect_raises) uid = None)"
  using got_phone_calls [of w uid "text" connect_raises send_code_raises w1]
    got_code_calls [of w uid "text" sign_in_raises fallback_raises file_connect_raises]
    got_password_calls [of w uid "text" password_raises file_connect_raises]
  by blast

theorem provider_calls_one_fallback_witness:
  "list_ex failed (calls_made (awaiting_code empty_db ''acc1'')
      (got_code (awaiting_code empty_db ''acc1'') 7 ''11111''
         (Some (Exception ''code invalid'')) (Some (Exception ''code invalid'')) None))
   \<and> one_fallback (calls_made (awaiting_code empty_db ''acc1'')
      (got_code (awaiting_code empty_db ''acc1'') 7 ''11111''
         (Some (Exception ''code invalid'')) (Some (Exception ''code invalid'')) None))
   \<and> fsm_state (got_code (awaiting_code empty_db ''acc1'') 7 ''11111''
         (Some (Exception ''code invalid'')) (Some (Exception ''code invalid'')) None) 7 = None"
proof -
  note c = sign_in_twice_calls
  have f: "list_ex failed (calls_made (awaiting_code empty_db ''acc1'')
      (got_code (awaiting_code empty_db ''acc1'') 7 ''11111''
         (Some (Exception ''code invalid'')) (Some (Exception ''code invalid'')) None))"
    by (rule failed_fields [OF conjunct1 [OF c] conjunct2 [OF c]])
  from provider_calls_one_fallback [of "awaiting_code empty_db ''acc1''" 7 "''11111''" None None
      "awaiting_code empty_db ''acc1''" "Some (Exception ''code invalid'')"
      "Some (Exception ''code invalid'')" None None] f
  show ?thesis by simp
qed

text \<open>
  C9 at the failing input.  Operator 7 has reached the state \<open>waiting_code\<close>: client 0 is
  connected and stored in \<open>pending_login\<close>.  The operator sends \<open>/add_account\<close> and the
  details again.  \<open>add_account_start\<close> only sets the state, and \<open>got_phone\<close> overwrites the
  entry: afterwards \<open>pending_login\<close> holds client 1, and client 0 is still connected,
  with nothing left that refers to it.
\<close>

theorem abandoned_connection_stays_open:
  "map_option telethon_client (pending_login (awaiting_code empty_db ''acc1'') 7) = Some 0
   \<and> connected (awaiting_code empty_db ''acc1'') = {0}
   \<and> map_sum id (\<lambda>w. (connected w, map_option telethon_client (pending_login w 7), fsm_state w 7))
        restarted
     = Inr ({0, 1}, Some 1, Some waiting_code)"
proof -
  have 1: "map_option telethon_client (pending_login (awaiting_code empty_db ''acc1'') 7) = Some 0
     \<and> connected (awaiting_code empty_db ''acc1'') = {0}"
    using awaiting_code_value [of empty_db] by simp
  have 2: "map_sum id (\<lambda>w. (connected w, map_option telethon_client (pending_login w 7), fsm_state w 7))
        restarted = Inr ({0, 1}, Some 1, Some waiting_code)"
    by (simp add: restarted_def awaiting_code_def handler_defs text_defs Let_def insert_commute)
  from 1 2 show ?thesis by simp
qed

section \<open>Start-up\<close>

text \<open>
  C10 at every input.  The second statement holds a parameter marker after \<open>DEFAULT\<close>,
  so \<open>init_db\<close> ends with \<open>OperationalError\<close> whatever tables exist: it never returns
  normally, and it does not create the table \<open>accounts\<close>.
\<close>

theorem init_db_raises: "init_db tables = Inl (OperationalError ''near ?: syntax error'')"
  by (simp add: init_db_def execute_create_def create_links_sql_def create_accounts_sql_def
      startswith_def)

end
